theory Spec2Isabelle
  imports Complex_Main "HOL-Library.AList"
begin

section \<open>Exceptions\<close>

text \<open>
  The Python exceptions that the modelled code of \<^verbatim>\<open>app.py\<close> can meet. Every one of
  them is a subclass of \<^verbatim>\<open>Exception\<close>, so an \<^verbatim>\<open>except Exception\<close> clause catches
  each of them. \<open>Download_error\<close> stands for whatever the stream provider raises when a
  transfer fails; \<open>OSError_other\<close> for a failure to start a process other than a
  missing executable.
\<close>

datatype py_exc =
    KeyError
  | ZeroDivisionError
  | AttributeError
  | FileNotFoundError
  | CalledProcessError int
  | OSError_other
  | Download_error

section \<open>format\_bytes\<close>

text \<open>
  \<^verbatim>\<open>
  def format_bytes(size):
      power = 2**10
      n = 0
      power_labels = {0 : '', 1: 'K', 2: 'M', 3: 'G', 4: 'T'}
      while size > power:
          size /= power
          n += 1
      return f"{size:.1f} {power_labels[n]}B"
  \<close>
  Numbers are idealised: Python's floats are taken as reals. The result keeps the scaled
  number exactly (the rounding to one decimal of \<^verbatim>\<open>:.1f\<close> is not modelled) together with
  the unit text. The dictionary lookup raises \<open>KeyError\<close> once the loop has run more than
  four times.
\<close>

definition power_labels :: "(nat \<times> string) list" where
  "power_labels = [(0, ''''), (1, ''K''), (2, ''M''), (3, ''G''), (4, ''T'')]"

function format_bytes_loop :: "real \<Rightarrow> nat \<Rightarrow> real \<times> nat" where
  "format_bytes_loop sz n =
     (if sz > 2 ^ 10 then format_bytes_loop (sz / 2 ^ 10) (n + 1) else (sz, n))"
  by pat_completeness auto
termination
proof (relation "measure (\<lambda>(sz, n). nat \<lceil>sz\<rceil>)")
  show "wf (measure (\<lambda>(sz :: real, n :: nat). nat \<lceil>sz\<rceil>))"
    by simp
next
  fix sz :: real and n :: nat
  assume big: "2 ^ 10 < sz"
  then have "sz / 2 ^ 10 \<le> sz - 1"
    by simp
  then have "\<lceil>sz / 2 ^ 10\<rceil> \<le> \<lceil>sz - 1\<rceil>"
    by (rule ceiling_mono)
  also have "\<dots> < \<lceil>sz\<rceil>"
    by simp
  finally have "\<lceil>sz / 2 ^ 10\<rceil> < \<lceil>sz\<rceil>" .
  moreover from big have "0 < \<lceil>sz\<rceil>"
    by simp
  ultimately show "((sz / 2 ^ 10, n + 1), (sz, n)) \<in> measure (\<lambda>(sz, n). nat \<lceil>sz\<rceil>)"
    by simp
qed

definition format_bytes :: "real \<Rightarrow> py_exc + (real \<times> string)" where
  "format_bytes sz =
     (case format_bytes_loop sz 0 of
        (sz', n) \<Rightarrow>
          (case map_of power_labels n of
             None \<Rightarrow> Inl KeyError
           | Some l \<Rightarrow> Inr (sz', l @ ''B'')))"

section \<open>DownloadMonitor\<close>

text \<open>
  The Streamlit widgets are outside the program; a widget is a handle, and what the
  monitor sends to a widget is recorded as a \<open>ui_call\<close>. The field \<^verbatim>\<open>text\<close> of the class
  is \<open>text_ui\<close> here. Times are the readings of \<^verbatim>\<open>time.time()\<close>, in seconds.
\<close>

type_synonym handle = nat

record DownloadMonitor =
  bar :: "handle option"
  text_ui :: "handle option"
  total_size :: int
  last_time :: real
  last_bytes :: int

text \<open>
  \<open>Bar_progress b v\<close> is \<^verbatim>\<open>self.bar.progress(v)\<close>. \<open>Text_markdown t p d tot s\<close> is
  \<^verbatim>\<open>self.text.markdown(...)\<close> with the four values the f-string renders:
  \<^verbatim>\<open>int(pct*100)\<close>, \<^verbatim>\<open>format_bytes(downloaded)\<close>, \<^verbatim>\<open>format_bytes(self.total_size)\<close> and
  \<^verbatim>\<open>format_bytes(speed)\<close>.
\<close>

datatype ui_call =
    Bar_progress handle real
  | Text_markdown handle int "real \<times> string" "real \<times> string" "real \<times> string"

text \<open>
  What a call of a method leaves behind: the monitor afterwards, the widget calls made
  (in order), and the exception that ended the call, if any.
\<close>

record outcome =
  monitor :: DownloadMonitor
  calls :: "ui_call list"
  raised :: "py_exc option"

definition returns :: "DownloadMonitor \<Rightarrow> ui_call list \<Rightarrow> outcome" where
  "returns self cs = \<lparr>monitor = self, calls = cs, raised = None\<rparr>"

definition raises :: "DownloadMonitor \<Rightarrow> ui_call list \<Rightarrow> py_exc \<Rightarrow> outcome" where
  "raises self cs e = \<lparr>monitor = self, calls = cs, raised = Some e\<rparr>"

text \<open>\<^verbatim>\<open>__init__\<close>\<close>

definition DownloadMonitor_init :: DownloadMonitor where
  "DownloadMonitor_init =
     \<lparr>bar = None, text_ui = None, total_size = 0, last_time = 0, last_bytes = 0\<rparr>"

text \<open>
  \<^verbatim>\<open>set_ui(self, bar, text, total_size)\<close>; \<open>now\<close> is the reading of the clock. Both call
  sites pass widgets, never \<^verbatim>\<open>None\<close>.
\<close>

definition set_ui :: "DownloadMonitor \<Rightarrow> handle \<Rightarrow> handle \<Rightarrow> int \<Rightarrow> real \<Rightarrow> DownloadMonitor" where
  "set_ui self b t total_sz now =
     self\<lparr>bar := Some b, text_ui := Some t, total_size := total_sz,
          last_time := now, last_bytes := total_sz\<rparr>"

text \<open>Python's \<^verbatim>\<open>/\<close> on numbers, and \<^verbatim>\<open>int()\<close> on a float (rounding towards zero).\<close>

definition truediv :: "real \<Rightarrow> real \<Rightarrow> py_exc + real" where
  "truediv a b = (if b = 0 then Inl ZeroDivisionError else Inr (a / b))"

definition py_int :: "real \<Rightarrow> int" where
  "py_int x = (if 0 \<le> x then \<lfloor>x\<rfloor> else \<lceil>x\<rceil>)"

text \<open>
  \<^verbatim>\<open>
  def on_progress(self, stream, chunk, bytes_remaining):
      if not self.bar: return
      current_time = time.time()
      if current_time - self.last_time > 0.1 or bytes_remaining == 0:
          downloaded = self.total_size - bytes_remaining
          pct = downloaded / self.total_size if self.total_size > 0 else 0
          time_diff = current_time - self.last_time
          bytes_diff = self.last_bytes - bytes_remaining
          speed = 0
          if time_diff > 0:
              speed = bytes_diff / time_diff
          self.bar.progress(min(pct, 1.0))
          self.text.markdown(f"... {int(pct*100)}% ... {format_bytes(downloaded)} /
              {format_bytes(self.total_size)} | {format_bytes(speed)}/s")
          self.last_time = current_time
          self.last_bytes = bytes_remaining
  \<close>
  The arguments \<^verbatim>\<open>stream\<close> and \<^verbatim>\<open>chunk\<close> are not used by the method. \<open>current_time\<close> is
  the reading of the clock that the call takes. The text is rendered after the bar has
  been updated, so an exception of the rendering leaves the bar call made and the
  tracking fields as they were.
\<close>

definition render_text ::
  "handle \<Rightarrow> real \<Rightarrow> int \<Rightarrow> int \<Rightarrow> real \<Rightarrow> py_exc + ui_call" where
  "render_text t pct downloaded total_sz speed =
     (case format_bytes (real_of_int downloaded) of
        Inl e \<Rightarrow> Inl e
      | Inr d \<Rightarrow>
          (case format_bytes (real_of_int total_sz) of
             Inl e \<Rightarrow> Inl e
           | Inr tot \<Rightarrow>
               (case format_bytes speed of
                  Inl e \<Rightarrow> Inl e
                | Inr s \<Rightarrow> Inr (Text_markdown t (py_int (pct * 100)) d tot s))))"

definition on_progress :: "DownloadMonitor \<Rightarrow> real \<Rightarrow> int \<Rightarrow> outcome" where
  "on_progress self current_time bytes_remaining =
     (case bar self of
        None \<Rightarrow> returns self []
      | Some b \<Rightarrow>
          if current_time - last_time self > 0.1 \<or> bytes_remaining = 0 then
            (let downloaded = total_size self - bytes_remaining in
             case (if total_size self > 0
                   then truediv (real_of_int downloaded) (real_of_int (total_size self))
                   else Inr 0) of
               Inl e \<Rightarrow> raises self [] e
             | Inr pct \<Rightarrow>
                 (let time_diff = current_time - last_time self;
                      bytes_diff = last_bytes self - bytes_remaining in
                  case (if time_diff > 0 then truediv (real_of_int bytes_diff) time_diff
                        else Inr 0) of
                    Inl e \<Rightarrow> raises self [] e
                  | Inr speed \<Rightarrow>
                      (let shown = [Bar_progress b (min pct 1.0)] in
                       case text_ui self of
                         None \<Rightarrow> raises self shown AttributeError
                       | Some t \<Rightarrow>
                           (case render_text t pct downloaded (total_size self) speed of
                              Inl e \<Rightarrow> raises self shown e
                            | Inr txt \<Rightarrow>
                                returns
                                  (self\<lparr>last_time := current_time,
                                        last_bytes := bytes_remaining\<rparr>)
                                  (shown @ [txt])))))
          else returns self [])"

text \<open>
  A sequence of callbacks, each with its clock reading and its \<^verbatim>\<open>bytes_remaining\<close>, as
  the provider's transfer loop makes them: one outcome per call made. An exception of
  the callback leaves the loop, so no call follows one that raised.
\<close>

fun run_calls :: "DownloadMonitor \<Rightarrow> (real \<times> int) list \<Rightarrow> outcome list" where
  "run_calls self [] = []"
| "run_calls self ((t, br) # rest) =
     (let r = on_progress self t br in
      r # (case raised r of Some e \<Rightarrow> [] | None \<Rightarrow> run_calls (monitor r) rest))"

text \<open>The values sent to the progress bar, and the percent labels sent to the text.\<close>

fun bar_values :: "ui_call list \<Rightarrow> real list" where
  "bar_values [] = []"
| "bar_values (Bar_progress b v # cs) = v # bar_values cs"
| "bar_values (Text_markdown t p d tot s # cs) = bar_values cs"

fun text_percents :: "ui_call list \<Rightarrow> int list" where
  "text_percents [] = []"
| "text_percents (Bar_progress b v # cs) = text_percents cs"
| "text_percents (Text_markdown t p d tot s # cs) = p # text_percents cs"

section \<open>sanitize\_filename\<close>

text \<open>
  \<^verbatim>\<open>
  def sanitize_filename(name):
      return re.sub(r'[<>:"/\\|?*]', '', name)
  \<close>
  The character class matches one character among \<^verbatim>\<open>< > : " / \ | ? *\<close>, and every match
  is replaced by the empty string, scanning from the left. All nine are ASCII, so the
  bytes of the UTF-8 encoding of any other code point pass through unchanged. The double
  quote is \<open>CHR 0x22\<close> and the backslash is \<open>CHR 0x5C\<close>.
\<close>

definition illegal_chars :: "char list" where
  "illegal_chars =
     [CHR ''<'', CHR ''>'', CHR '':'', CHR 0x22, CHR ''/'', CHR 0x5C, CHR ''|'', CHR ''?'',
      CHR ''*'']"

fun sanitize_filename :: "string \<Rightarrow> string" where
  "sanitize_filename [] = []"
| "sanitize_filename (c # cs) =
     (if c \<in> set illegal_chars then sanitize_filename cs else c # sanitize_filename cs)"

section \<open>merge\_audio\_video\<close>

text \<open>
  \<^verbatim>\<open>
  def merge_audio_video(video_path, audio_path, output_path):
      try:
          cmd = ['ffmpeg', '-y', '-i', video_path, '-i', audio_path,
                 '-c:v', 'copy', '-c:a', 'aac', output_path]
          subprocess.run(cmd, check=True, stdout=subprocess.DEVNULL, stderr=subprocess.DEVNULL)
          return True
      except FileNotFoundError:
          st.error("FFmpeg not found! Please install FFmpeg.")
          return False
      except Exception as e:
          st.error(f"Error merging files: {e}")
          return False
  \<close>
  The operating system is a parameter: it maps the command to what happens to the process.
  \<^verbatim>\<open>subprocess.run\<close> with \<^verbatim>\<open>check=True\<close> raises \<^verbatim>\<open>FileNotFoundError\<close> when the
  executable is missing, another \<^verbatim>\<open>OSError\<close> when the process cannot be started for
  another reason, and \<^verbatim>\<open>CalledProcessError\<close> when the exit code is not zero.
  Interrupts (\<^verbatim>\<open>KeyboardInterrupt\<close>, \<^verbatim>\<open>SystemExit\<close>), which are not outcomes of the
  process, are not modelled.
\<close>

datatype proc_outcome = Not_found | Spawn_error | Exited int

primrec is_Exception :: "py_exc \<Rightarrow> bool" where
  "is_Exception KeyError = True"
| "is_Exception ZeroDivisionError = True"
| "is_Exception AttributeError = True"
| "is_Exception FileNotFoundError = True"
| "is_Exception (CalledProcessError rc) = True"
| "is_Exception OSError_other = True"
| "is_Exception Download_error = True"

definition subprocess_run_check :: "(string list \<Rightarrow> proc_outcome) \<Rightarrow> string list \<Rightarrow> py_exc + int" where
  "subprocess_run_check sys cmd =
     (case sys cmd of
        Not_found \<Rightarrow> Inl FileNotFoundError
      | Spawn_error \<Rightarrow> Inl OSError_other
      | Exited rc \<Rightarrow> if rc \<noteq> 0 then Inl (CalledProcessError rc) else Inr rc)"

text \<open>The two texts given to \<^verbatim>\<open>st.error\<close>; the second carries the exception.\<close>

datatype diag = Ffmpeg_not_found | Error_merging py_exc

text \<open>
  The result is the returned Boolean, or the exception that leaves the function, and the
  diagnostics shown.
\<close>

definition merge_audio_video ::
  "(string list \<Rightarrow> proc_outcome) \<Rightarrow> string \<Rightarrow> string \<Rightarrow> string \<Rightarrow> (py_exc + bool) \<times> diag list" where
  "merge_audio_video sys video_path audio_path output_path =
     (let cmd = [''ffmpeg'', ''-y'', ''-i'', video_path, ''-i'', audio_path,
                 ''-c:v'', ''copy'', ''-c:a'', ''aac'', output_path] in
      case subprocess_run_check sys cmd of
        Inr rc \<Rightarrow> (Inr True, [])
      | Inl e \<Rightarrow>
          if e = FileNotFoundError then (Inr False, [Ffmpeg_not_found])
          else if is_Exception e then (Inr False, [Error_merging e])
          else (Inl e, []))"

section \<open>Streams and the choice of a resolution\<close>

text \<open>
  The attributes of a provider's stream that the code reads. \<^verbatim>\<open>resolution\<close> is a string
  or \<^verbatim>\<open>None\<close>.
\<close>

record stream =
  resolution :: "string option"
  is_progressive :: bool
  filesize :: int
  default_filename :: string

text \<open>
  \<^verbatim>\<open>
  resolutions = {}
  for s in all_streams:
      if s.resolution and s.resolution not in resolutions:
          resolutions[s.resolution] = s
  \<close>
  \<open>all_streams\<close> is the provider's answer to the query (mp4 video streams in descending
  order of resolution), in the order of iteration. A Python dictionary keeps its keys in
  the order of their insertion: it is an association list, and an assignment to a key
  is \<^const>\<open>AList.update\<close>. \<^verbatim>\<open>None\<close> and the empty string are false.
\<close>

fun resolutions_loop :: "stream list \<Rightarrow> (string \<times> stream) list \<Rightarrow> (string \<times> stream) list" where
  "resolutions_loop [] resolutions = resolutions"
| "resolutions_loop (s # rest) resolutions =
     resolutions_loop rest
       (case resolution s of
          None \<Rightarrow> resolutions
        | Some r \<Rightarrow>
            if r \<noteq> [] \<and> map_of resolutions r = None
            then AList.update r s resolutions
            else resolutions)"

definition resolutions_of :: "stream list \<Rightarrow> (string \<times> stream) list" where
  "resolutions_of all_streams = resolutions_loop all_streams []"

text \<open>
  \<^verbatim>\<open>
  best_audio = yt.streams.filter(only_audio=True).order_by('abr').desc().first()
  audio_size = best_audio.filesize if best_audio else 0
  \<close>
  The query is the provider's; its answer \<open>best_audio\<close> is a stream or \<^verbatim>\<open>None\<close>.
\<close>

definition audio_size_of :: "stream option \<Rightarrow> int" where
  "audio_size_of best_audio = (case best_audio of Some a \<Rightarrow> filesize a | None \<Rightarrow> 0)"

text \<open>
  \<^verbatim>\<open>
  res_options = {}
  for res, stream in resolutions.items():
      is_adaptive = not stream.is_progressive
      if is_adaptive:
          est_size = stream.filesize + audio_size
          label = f"{res} (High Res) - ~{format_bytes(est_size)}"
      else:
          est_size = stream.filesize
          label = f"{res} (Standard) - {format_bytes(est_size)}"
      res_options[label] = res
  \<close>
  A label is kept as its parts: the resolution, the kind, and the formatted size.
\<close>

datatype label = High_Res string "real \<times> string" | Standard string "real \<times> string"

fun res_options_loop ::
  "(string \<times> stream) list \<Rightarrow> int \<Rightarrow> (label \<times> string) list \<Rightarrow> py_exc + (label \<times> string) list" where
  "res_options_loop [] audio_size res_options = Inr res_options"
| "res_options_loop ((res, s) # rest) audio_size res_options =
     (let is_adaptive = \<not> is_progressive s in
      if is_adaptive then
        (case format_bytes (real_of_int (filesize s + audio_size)) of
           Inl e \<Rightarrow> Inl e
         | Inr f \<Rightarrow> res_options_loop rest audio_size (AList.update (High_Res res f) res res_options))
      else
        (case format_bytes (real_of_int (filesize s)) of
           Inl e \<Rightarrow> Inl e
         | Inr f \<Rightarrow> res_options_loop rest audio_size (AList.update (Standard res f) res res_options)))"

text \<open>
  \<^verbatim>\<open>
  selected_label = st.selectbox("Choose Resolution", list(res_options.keys()))
  selected_res = res_options[selected_label]
  selected_stream = resolutions[selected_res]
  \<close>
  The select box returns one of the labels it was given.
\<close>

definition selected_stream_of ::
  "(string \<times> stream) list \<Rightarrow> (label \<times> string) list \<Rightarrow> label \<Rightarrow> stream option" where
  "selected_stream_of resolutions res_options selected_label =
     (case map_of res_options selected_label of
        None \<Rightarrow> None
      | Some selected_res \<Rightarrow> map_of resolutions selected_res)"

section \<open>The download button\<close>

text \<open>
  The file system is the set of the paths that exist. A transfer of the provider either
  writes the whole file and returns its path, or raises, leaving a partly written file or
  none. The provider names the file by the given name, or by the prefix followed by the
  stream's default name, in the given directory. \<^verbatim>\<open>os.path.join\<close> of a directory and a
  name without separator is written out with \<^verbatim>\<open>/\<close>.
\<close>

datatype dl_result = Saved | Failed_partial | Failed_clean

definition download ::
  "dl_result \<Rightarrow> string set \<Rightarrow> string \<Rightarrow> string \<Rightarrow> string set \<times> (py_exc + string)" where
  "download res fs output_path filename =
     (let file_path = output_path @ ''/'' @ filename in
      case res of
        Saved \<Rightarrow> (insert file_path fs, Inr file_path)
      | Failed_partial \<Rightarrow> (insert file_path fs, Inl Download_error)
      | Failed_clean \<Rightarrow> (fs, Inl Download_error))"

text \<open>What happens outside the program during one click.\<close>

record env =
  video_dl :: dl_result
  audio_dl :: dl_result
  ffmpeg :: "string list \<Rightarrow> proc_outcome"

text \<open>What the page shows at the end: \<^verbatim>\<open>st.success\<close>, and the two kinds of \<^verbatim>\<open>st.error\<close>.\<close>

datatype ui_msg = Saved_to string | Merge_diag diag | Error_shown py_exc

text \<open>
  \<^verbatim>\<open>
  try:
      if is_adaptive:
          monitor.set_ui(progress_bar, status_text, selected_stream.filesize)
          video_path = selected_stream.download(output_path=save_path, filename_prefix="temp_video_")
          monitor.set_ui(progress_bar, status_text, audio_size)
          audio_path = best_audio.download(output_path=save_path, filename_prefix="temp_audio_")
          success = merge_audio_video(video_path, audio_path, final_path)
          if os.path.exists(video_path): os.remove(video_path)
          if os.path.exists(audio_path): os.remove(audio_path)
          if success:
              ... st.success(f"Saved to: {final_path}")
      else:
          monitor.set_ui(progress_bar, status_text, selected_stream.filesize)
          out_file = selected_stream.download(output_path=save_path, filename=clean_filename)
          ... st.success(f"Saved to: {out_file}")
  except Exception as e:
      st.error(f"Error: {e}")
  \<close>
  \<open>try_block\<close> is the body of the \<^verbatim>\<open>try\<close>: the files afterwards, the messages shown, and
  the exception that ended it, if any. The calls of \<^verbatim>\<open>set_ui\<close> and the status texts do not
  touch the files and cannot fail; they are left out, the monitor being modelled above.
  A merge that succeeds has written the output file. With \<^verbatim>\<open>best_audio\<close> being \<^verbatim>\<open>None\<close>,
  \<^verbatim>\<open>best_audio.download\<close> raises \<^verbatim>\<open>AttributeError\<close>.
\<close>

definition try_block ::
  "env \<Rightarrow> string set \<Rightarrow> string \<Rightarrow> stream \<Rightarrow> stream option \<Rightarrow> string \<Rightarrow> string \<Rightarrow>
   string set \<times> ui_msg list \<times> py_exc option" where
  "try_block ev fs save_path selected_stream best_audio clean_filename final_path =
     (let is_adaptive = \<not> is_progressive selected_stream in
      if is_adaptive then
        (case download (video_dl ev) fs save_path
                (''temp_video_'' @ default_filename selected_stream) of
           (fs1, Inl e) \<Rightarrow> (fs1, [], Some e)
         | (fs1, Inr video_path) \<Rightarrow>
             (case best_audio of
                None \<Rightarrow> (fs1, [], Some AttributeError)
              | Some a \<Rightarrow>
                  (case download (audio_dl ev) fs1 save_path
                          (''temp_audio_'' @ default_filename a) of
                     (fs2, Inl e) \<Rightarrow> (fs2, [], Some e)
                   | (fs2, Inr audio_path) \<Rightarrow>
                       (case merge_audio_video (ffmpeg ev) video_path audio_path final_path of
                          (Inl e, diags) \<Rightarrow> (fs2, map Merge_diag diags, Some e)
                        | (Inr success, diags) \<Rightarrow>
                            (let fs3 = (if success then insert final_path fs2 else fs2);
                                 fs4 = (if video_path \<in> fs3 then fs3 - {video_path} else fs3);
                                 fs5 = (if audio_path \<in> fs4 then fs4 - {audio_path} else fs4)
                             in (fs5,
                                 map Merge_diag diags @
                                   (if success then [Saved_to final_path] else []),
                                 None))))))
      else
        (case download (video_dl ev) fs save_path clean_filename of
           (fs1, Inl e) \<Rightarrow> (fs1, [], Some e)
         | (fs1, Inr out_file) \<Rightarrow> (fs1, [Saved_to out_file], None)))"

definition download_clicked ::
  "env \<Rightarrow> string set \<Rightarrow> string \<Rightarrow> stream \<Rightarrow> stream option \<Rightarrow>
   string set \<times> ui_msg list \<times> py_exc option" where
  "download_clicked ev fs save_path selected_stream best_audio =
     (let clean_filename = sanitize_filename (default_filename selected_stream);
          final_path = save_path @ ''/'' @ clean_filename in
      case try_block ev fs save_path selected_stream best_audio clean_filename final_path of
        (fs', msgs, None) \<Rightarrow> (fs', msgs, None)
      | (fs', msgs, Some e) \<Rightarrow>
          if is_Exception e then (fs', msgs @ [Error_shown e], None)
          else (fs', msgs, Some e))"

section \<open>Facts about format\_bytes and on\_progress\<close>

lemma on_progress_no_bar:
  "bar self = None \<Longrightarrow> on_progress self t br = returns self []"
  by (simp add: on_progress_def)

lemma run_calls_no_bar:
  "bar self = None \<Longrightarrow> run_calls self cs = map (\<lambda>c. returns self []) cs"
  by (induction cs) (auto simp: on_progress_no_bar returns_def Let_def)

declare format_bytes_loop.simps [simp del]

lemma format_bytes_loop_scaled:
  "format_bytes_loop sz n = (s, k) \<Longrightarrow> n \<le> k \<and> s * (2 ^ 10) ^ (k - n) = sz"
proof (induction sz n arbitrary: s k rule: format_bytes_loop.induct)
  case (1 sz n)
  show ?case
  proof (cases "sz > 2 ^ 10")
    case True
    with "1.prems" have rec: "format_bytes_loop (sz / 2 ^ 10) (n + 1) = (s, k)"
      by (simp add: format_bytes_loop.simps [of sz n])
    from "1.IH" [OF True rec] have le: "n + 1 \<le> k" and eq: "s * (2 ^ 10) ^ (k - (n + 1)) = sz / 2 ^ 10"
      by simp_all
    from le have "k - n = Suc (k - (n + 1))"
      by simp
    with eq le show ?thesis
      by simp
  next
    case False
    with "1.prems" show ?thesis
      by (simp add: format_bytes_loop.simps [of sz n])
  qed
qed

lemma format_bytes_raises_KeyError:
  "format_bytes sz = Inl e \<Longrightarrow> e = KeyError"
  by (auto simp: format_bytes_def split: prod.splits option.splits)

lemma render_text_Inl:
  "render_text t pct d tot sp = Inl e \<Longrightarrow> e = KeyError"
  by (auto simp: render_text_def split: sum.splits dest: format_bytes_raises_KeyError)

lemma render_text_Inr:
  "render_text t pct d tot sp = Inr txt \<Longrightarrow>
     \<exists>fd ft fs. txt = Text_markdown t (py_int (pct * 100)) fd ft fs \<and>
       format_bytes (real_of_int d) = Inr fd \<and> format_bytes (real_of_int tot) = Inr ft \<and>
       format_bytes sp = Inr fs"
  by (auto simp: render_text_def split: sum.splits)

lemma on_progress_attached:
  assumes "bar self = Some b"
  shows "on_progress self t br =
     (if t - last_time self > 0.1 \<or> br = 0 then
        (let pct = (if total_size self > 0
                    then real_of_int (total_size self - br) / real_of_int (total_size self) else 0);
             speed = (if t - last_time self > 0
                      then real_of_int (last_bytes self - br) / (t - last_time self) else 0);
             shown = [Bar_progress b (min pct 1)] in
         case text_ui self of
           None \<Rightarrow> raises self shown AttributeError
         | Some tx \<Rightarrow>
             (case render_text tx pct (total_size self - br) (total_size self) speed of
                Inl e \<Rightarrow> raises self shown e
              | Inr txt \<Rightarrow> returns (self\<lparr>last_time := t, last_bytes := br\<rparr>) (shown @ [txt])))
      else returns self [])"
  using assms
  by (auto simp: on_progress_def truediv_def Let_def split: option.splits sum.splits)


lemma on_progress_cases [case_names silent failed emitted]:
  fixes self :: DownloadMonitor and t :: real and br :: int
  defines "pct \<equiv> (if total_size self > 0
                    then real_of_int (total_size self - br) / real_of_int (total_size self) else 0)"
    and "speed \<equiv> (if t - last_time self > 0
                      then real_of_int (last_bytes self - br) / (t - last_time self) else 0)"
  obtains
    (silent) "on_progress self t br = returns self []"
      "bar self = None \<or> \<not> (t - last_time self > 0.1 \<or> br = 0)"
  | (failed) b e where "bar self = Some b" "t - last_time self > 0.1 \<or> br = 0"
      "on_progress self t br = raises self [Bar_progress b (min pct 1)] e"
      "e = AttributeError \<or> e = KeyError"
  | (emitted) b tx fd ft fs where "bar self = Some b" "text_ui self = Some tx"
      "t - last_time self > 0.1 \<or> br = 0"
      "on_progress self t br =
         returns (self\<lparr>last_time := t, last_bytes := br\<rparr>)
           [Bar_progress b (min pct 1), Text_markdown tx (py_int (pct * 100)) fd ft fs]"
      "format_bytes (real_of_int (total_size self - br)) = Inr fd"
      "format_bytes (real_of_int (total_size self)) = Inr ft"
      "format_bytes speed = Inr fs"
proof (cases "bar self")
  case None
  then show ?thesis
    using silent by (simp add: on_progress_no_bar)
next
  case (Some b)
  note attached = on_progress_attached [OF Some, of t br, folded pct_def speed_def]
  show ?thesis
  proof (cases "t - last_time self > 0.1 \<or> br = 0")
    case False
    with attached silent show ?thesis
      by simp
  next
    case cond: True
    show ?thesis
    proof (cases "text_ui self")
      case None
      with attached cond failed [OF Some cond, of AttributeError] show ?thesis
        by (simp add: Let_def)
    next
      case tx: (Some tx)
      show ?thesis
      proof (cases "render_text tx pct (total_size self - br) (total_size self) speed")
        case (Inl e)
        with attached cond tx failed [OF Some cond, of e] render_text_Inl [OF Inl]
        show ?thesis
          by (simp add: Let_def)
      next
        case (Inr msg)
        from render_text_Inr [OF Inr] obtain fd ft fs where
          msg: "msg = Text_markdown tx (py_int (pct * 100)) fd ft fs"
          and f: "format_bytes (real_of_int (total_size self - br)) = Inr fd"
            "format_bytes (real_of_int (total_size self)) = Inr ft"
            "format_bytes speed = Inr fs"
          by blast
        from attached cond tx Inr msg
        have "on_progress self t br =
          returns (self\<lparr>last_time := t, last_bytes := br\<rparr>)
           [Bar_progress b (min pct 1), Text_markdown tx (py_int (pct * 100)) fd ft fs]"
          by (simp add: Let_def)
        with emitted [OF Some tx cond _ f] show ?thesis
          by blast
      qed
    qed
  qed
qed

lemma on_progress_frame:
  "bar (monitor (on_progress self t br)) = bar self \<and>
   text_ui (monitor (on_progress self t br)) = text_ui self \<and>
   total_size (monitor (on_progress self t br)) = total_size self"
  by (rule on_progress_cases [where self = self and t = t and br = br]) (simp_all add: returns_def raises_def)

lemma on_progress_bar_values:
  "bar_values (calls (on_progress self t br)) =
     (if bar self \<noteq> None \<and> (t - last_time self > 0.1 \<or> br = 0)
      then [min (if total_size self > 0
                 then real_of_int (total_size self - br) / real_of_int (total_size self)
                 else 0) 1]
      else [])"
  by (rule on_progress_cases [where self = self and t = t and br = br]) (auto simp: returns_def raises_def)

lemma on_progress_not_ZeroDivisionError:
  "raised (on_progress self t br) \<noteq> Some ZeroDivisionError"
  by (rule on_progress_cases [where self = self and t = t and br = br]) (auto simp: returns_def raises_def)

lemma run_calls_member:
  "r \<in> set (run_calls self cs) \<Longrightarrow>
     \<exists>m t br. (t, br) \<in> set cs \<and> r = on_progress m t br \<and>
       bar m = bar self \<and> text_ui m = text_ui self \<and> total_size m = total_size self"
proof (induction cs arbitrary: self)
  case Nil
  then show ?case by simp
next
  case (Cons c cs)
  obtain t br where c: "c = (t, br)"
    by (cases c)
  from Cons.prems c
  consider "r = on_progress self t br"
    | "raised (on_progress self t br) = None" "r \<in> set (run_calls (monitor (on_progress self t br)) cs)"
    by (auto simp: Let_def split: option.splits)
  then show ?case
  proof cases
    case 1
    with c show ?thesis
      by auto
  next
    case 2
    from Cons.IH [OF 2(2)] on_progress_frame [of self t br] c show ?thesis
      by (metis list.set_intros(2))
  qed
qed

lemma format_bytes_small: "sz \<le> 2 ^ 10 \<Longrightarrow> format_bytes sz = Inr (sz, ''B'')"
  by (simp add: format_bytes_def format_bytes_loop.simps [of sz 0] power_labels_def)

lemmas on_progress_eval =
  on_progress_def set_ui_def DownloadMonitor_init_def truediv_def Let_def render_text_def
  format_bytes_small returns_def raises_def py_int_def

lemma on_progress_emits_iff:
  "bar self \<noteq> None \<Longrightarrow>
     calls (on_progress self t br) \<noteq> [] \<longleftrightarrow> (t - last_time self > 0.1 \<or> br = 0)"
  by (rule on_progress_cases [where self = self and t = t and br = br])
    (auto simp: returns_def raises_def)

lemma burst_quiet:
  assumes "\<forall>c \<in> set cs. fst c - last_time self \<le> 0.1"
    and "\<forall>c \<in> set cs. \<forall>c' \<in> set cs. fst c' - fst c \<le> 0.05"
  shows "filter (\<lambda>(c, r). snd c \<noteq> 0 \<and> calls r \<noteq> []) (zip cs (run_calls self cs)) = []"
  using assms
proof (induction cs arbitrary: self)
  case Nil
  then show ?case by simp
next
  case (Cons c cs)
  obtain t br where c: "c = (t, br)"
    by (cases c)
  from Cons.prems(1) c have near: "t - last_time self \<le> 0.1"
    by simp
  from Cons.prems(2) have window: "\<forall>c \<in> set cs. \<forall>c' \<in> set cs. fst c' - fst c \<le> 0.05"
    by simp
  show ?case
  proof (rule on_progress_cases [where self = self and t = t and br = br])
    assume r: "on_progress self t br = returns self []"
    from Cons.prems(1) have "\<forall>c \<in> set cs. fst c - last_time self \<le> 0.1"
      by simp
    from Cons.IH [OF this window] r c show ?thesis
      by (simp add: returns_def Let_def)
  next
    fix b e
    assume cond: "t - last_time self > 0.1 \<or> br = 0"
      and r: "on_progress self t br =
        raises self [Bar_progress b (min (if 0 < total_size self
          then real_of_int (total_size self - br) / real_of_int (total_size self) else 0) 1)] e"
    from cond near have "br = 0"
      by simp
    with r c show ?thesis
      by (simp add: raises_def Let_def)
  next
    fix b tx fd ft fs
    assume cond: "t - last_time self > 0.1 \<or> br = 0"
      and r: "on_progress self t br =
         returns (self\<lparr>last_time := t, last_bytes := br\<rparr>)
           [Bar_progress b (min (if 0 < total_size self
              then real_of_int (total_size self - br) / real_of_int (total_size self) else 0) 1),
            Text_markdown tx (py_int ((if 0 < total_size self
              then real_of_int (total_size self - br) / real_of_int (total_size self) else 0) * 100))
              fd ft fs]"
    from cond near have br: "br = 0"
      by simp
    from Cons.prems(2) c have "\<forall>c \<in> set cs. fst c - t \<le> 0.05"
      by auto
    then have "\<forall>c \<in> set cs. fst c - last_time (self\<lparr>last_time := t, last_bytes := br\<rparr>) \<le> 0.1"
      by auto
    from Cons.IH [OF this window] r c br show ?thesis
      by (simp add: returns_def Let_def)
  qed
qed

lemma burst_at_most_one:
  assumes "\<forall>c \<in> set cs. \<forall>c' \<in> set cs. fst c' - fst c \<le> 0.05"
  shows "length (filter (\<lambda>(c, r). snd c \<noteq> 0 \<and> calls r \<noteq> []) (zip cs (run_calls self cs))) \<le> 1"
  using assms
proof (induction cs arbitrary: self)
  case Nil
  then show ?case by simp
next
  case (Cons c cs)
  obtain t br where c: "c = (t, br)"
    by (cases c)
  from Cons.prems have window: "\<forall>c \<in> set cs. \<forall>c' \<in> set cs. fst c' - fst c \<le> 0.05"
    by simp
  show ?case
  proof (rule on_progress_cases [where self = self and t = t and br = br])
    assume r: "on_progress self t br = returns self []"
    from Cons.IH [OF window, of self] r c show ?thesis
      by (simp add: returns_def Let_def)
  next
    fix b e
    assume r: "on_progress self t br =
        raises self [Bar_progress b (min (if 0 < total_size self
          then real_of_int (total_size self - br) / real_of_int (total_size self) else 0) 1)] e"
    with c show ?thesis
      by (simp add: raises_def Let_def)
  next
    fix b tx fd ft fs
    assume r: "on_progress self t br =
         returns (self\<lparr>last_time := t, last_bytes := br\<rparr>)
           [Bar_progress b (min (if 0 < total_size self
              then real_of_int (total_size self - br) / real_of_int (total_size self) else 0) 1),
            Text_markdown tx (py_int ((if 0 < total_size self
              then real_of_int (total_size self - br) / real_of_int (total_size self) else 0) * 100))
              fd ft fs]"
    from Cons.prems c have "\<forall>c \<in> set cs. fst c - t \<le> 0.05"
      by auto
    then have "\<forall>c \<in> set cs. fst c - last_time (self\<lparr>last_time := t, last_bytes := br\<rparr>) \<le> 0.1"
      by auto
    from burst_quiet [OF this window] r c show ?thesis
      by (auto simp: returns_def Let_def)
  qed
qed


lemma on_progress_text_percents:
  "p \<in> set (text_percents (calls (on_progress self t br))) \<Longrightarrow>
     p = py_int ((if total_size self > 0
                  then real_of_int (total_size self - br) / real_of_int (total_size self)
                  else 0) * 100)"
  by (rule on_progress_cases [where self = self and t = t and br = br])
    (auto simp: returns_def raises_def)

lemma format_bytes_value:
  assumes "format_bytes x = Inr (s, u)"
  shows "\<exists>n l. map_of power_labels n = Some l \<and> u = l @ ''B'' \<and> s * (2 ^ 10) ^ n = x"
proof -
  obtain s' n where loop: "format_bytes_loop x 0 = (s', n)"
    by (cases "format_bytes_loop x 0")
  with assms obtain l where "map_of power_labels n = Some l" "s = s'" "u = l @ ''B''"
    by (auto simp: format_bytes_def split: option.splits)
  moreover from format_bytes_loop_scaled [OF loop] have "s' * (2 ^ 10) ^ n = x"
    by simp
  ultimately show ?thesis
    by blast
qed

lemma on_progress_completed:
  assumes "calls (on_progress self t br) \<noteq> []" and "raised (on_progress self t br) = None"
  shows "\<exists>b v tx p fd ft s u n l.
           calls (on_progress self t br) = [Bar_progress b v, Text_markdown tx p fd ft (s, u)] \<and>
           map_of power_labels n = Some l \<and> u = l @ ''B'' \<and>
           s * (2 ^ 10) ^ n =
             (if t - last_time self > 0
              then real_of_int (last_bytes self - br) / (t - last_time self) else 0)"
    and "monitor (on_progress self t br) = self\<lparr>last_time := t, last_bytes := br\<rparr>"
proof -
  have "(\<exists>b v tx p fd ft s u n l.
           calls (on_progress self t br) = [Bar_progress b v, Text_markdown tx p fd ft (s, u)] \<and>
           map_of power_labels n = Some l \<and> u = l @ ''B'' \<and>
           s * (2 ^ 10) ^ n =
             (if t - last_time self > 0
              then real_of_int (last_bytes self - br) / (t - last_time self) else 0)) \<and>
        monitor (on_progress self t br) = self\<lparr>last_time := t, last_bytes := br\<rparr>"
  proof (rule on_progress_cases [where self = self and t = t and br = br])
    assume "on_progress self t br = returns self []"
    with assms(1) show ?thesis
      by (simp add: returns_def)
  next
    fix b e
    assume "on_progress self t br =
        raises self [Bar_progress b (min (if 0 < total_size self
          then real_of_int (total_size self - br) / real_of_int (total_size self) else 0) 1)] e"
    with assms(2) show ?thesis
      by (simp add: raises_def)
  next
    fix b tx fd ft fs
    assume r: "on_progress self t br =
         returns (self\<lparr>last_time := t, last_bytes := br\<rparr>)
           [Bar_progress b (min (if 0 < total_size self
              then real_of_int (total_size self - br) / real_of_int (total_size self) else 0) 1),
            Text_markdown tx (py_int ((if 0 < total_size self
              then real_of_int (total_size self - br) / real_of_int (total_size self) else 0) * 100))
              fd ft fs]"
      and sp: "format_bytes (if 0 < t - last_time self
          then real_of_int (last_bytes self - br) / (t - last_time self) else 0) = Inr fs"
    obtain s u where fs: "fs = (s, u)"
      by (cases fs)
    from format_bytes_value [OF sp [unfolded fs]] r fs show ?thesis
      by (auto simp: returns_def)
  qed
  then show "\<exists>b v tx p fd ft s u n l.
           calls (on_progress self t br) = [Bar_progress b v, Text_markdown tx p fd ft (s, u)] \<and>
           map_of power_labels n = Some l \<and> u = l @ ''B'' \<and>
           s * (2 ^ 10) ^ n =
             (if t - last_time self > 0
              then real_of_int (last_bytes self - br) / (t - last_time self) else 0)"
    and "monitor (on_progress self t br) = self\<lparr>last_time := t, last_bytes := br\<rparr>"
    by blast+
qed

lemma sanitize_filename_filter:
  "sanitize_filename name = filter (\<lambda>c. c \<notin> set illegal_chars) name"
  by (induction name) simp_all

lemma resolutions_loop_distinct:
  "distinct (map fst acc) \<Longrightarrow> distinct (map fst (resolutions_loop xs acc))"
  by (induction xs arbitrary: acc) (auto simp: distinct_update split: option.splits)

lemma resolutions_loop_map_of:
  "map_of (resolutions_loop xs acc) r =
     (case map_of acc r of
        Some s \<Rightarrow> Some s
      | None \<Rightarrow> if r = [] then None else find (\<lambda>s. resolution s = Some r) xs)"
proof (induction xs arbitrary: acc)
  case Nil
  then show ?case
    by (simp split: option.splits)
next
  case (Cons x xs)
  show ?case
  proof (cases "resolution x")
    case None
    then show ?thesis
      by (simp add: Cons.IH split: option.splits)
  next
    case (Some q)
    show ?thesis
    proof (cases "q \<noteq> [] \<and> map_of acc q = None")
      case True
      with Some show ?thesis
        by (auto simp: Cons.IH update_conv' split: option.splits)
    next
      case False
      with Some show ?thesis
        by (auto simp: Cons.IH split: option.splits)
    qed
  qed
qed

lemma resolutions_of_map_of:
  "map_of (resolutions_of all_streams) r =
     (if r = [] then None else find (\<lambda>s. resolution s = Some r) all_streams)"
  by (simp add: resolutions_of_def resolutions_loop_map_of)

lemma resolutions_of_distinct: "distinct (map fst (resolutions_of all_streams))"
  by (simp add: resolutions_of_def resolutions_loop_distinct)

lemma format_bytes_50MB: "format_bytes 52428800 = Inr (50, ''MB'')"
  by (simp add: format_bytes_def format_bytes_loop.simps power_labels_def)

lemma merge_audio_video_returns:
  "\<exists>b diags. merge_audio_video sys v a out = (Inr b, diags)"
  by (cases "sys [''ffmpeg'', ''-y'', ''-i'', v, ''-i'', a, ''-c:v'', ''copy'', ''-c:a'', ''aac'', out]")
    (auto simp: merge_audio_video_def subprocess_run_check_def Let_def)

lemma cleanup_after_merge:
  assumes "video_dl ev = Saved" and "audio_dl ev = Saved" and "\<not> is_progressive selected_stream"
    and "download_clicked ev fs save_path selected_stream (Some a) = (fs', msgs, exc)"
  shows "save_path @ ''/'' @ ''temp_video_'' @ default_filename selected_stream \<notin> fs' \<and>
         save_path @ ''/'' @ ''temp_audio_'' @ default_filename a \<notin> fs' \<and> exc = None"
proof -
  let ?video_path = "save_path @ ''/'' @ ''temp_video_'' @ default_filename selected_stream"
  let ?audio_path = "save_path @ ''/'' @ ''temp_audio_'' @ default_filename a"
  let ?final_path = "save_path @ ''/'' @ sanitize_filename (default_filename selected_stream)"
  from merge_audio_video_returns obtain b diags where
    "merge_audio_video (ffmpeg ev) ?video_path ?audio_path ?final_path = (Inr b, diags)"
    by blast
  with assms show ?thesis
    by (auto simp: download_clicked_def try_block_def download_def Let_def split: if_splits)
qed

section \<open>The monitor without a widget\<close>

text \<open>
  C10. While no bar is attached (the state \<^verbatim>\<open>__init__\<close> leaves, and every state reached
  from it by \<^verbatim>\<open>on_progress\<close> alone), a call of \<^verbatim>\<open>on_progress\<close> makes no widget call,
  raises nothing and leaves every field of the monitor as it was; so does any sequence
  of such calls starting from the fresh monitor.
\<close>

theorem C10_on_progress_without_bar_is_noop:
  "(bar self = None \<longrightarrow>
      calls (on_progress self t br) = [] \<and>
      raised (on_progress self t br) = None \<and>
      monitor (on_progress self t br) = self) \<and>
   (\<forall>r \<in> set (run_calls DownloadMonitor_init cs).
      calls r = [] \<and> raised r = None \<and> monitor r = DownloadMonitor_init)"
proof -
  have "bar DownloadMonitor_init = None"
    by (simp add: DownloadMonitor_init_def)
  then have "run_calls DownloadMonitor_init cs = map (\<lambda>c. returns DownloadMonitor_init []) cs"
    by (rule run_calls_no_bar)
  then show ?thesis
    by (auto simp: on_progress_no_bar returns_def)
qed

theorem C10_witness:
  "bar DownloadMonitor_init = None \<and>
   calls (on_progress DownloadMonitor_init 1000 0) = [] \<and>
   raised (on_progress DownloadMonitor_init 1000 0) = None \<and>
   monitor (on_progress DownloadMonitor_init 1000 0) = DownloadMonitor_init \<and>
   run_calls DownloadMonitor_init [(1000, 5), (1001, 0)] =
     [returns DownloadMonitor_init [], returns DownloadMonitor_init []]"
proof -
  have nobar: "bar DownloadMonitor_init = None"
    by (simp add: DownloadMonitor_init_def)
  have run: "run_calls DownloadMonitor_init [(1000, 5), (1001, 0)] =
     [returns DownloadMonitor_init [], returns DownloadMonitor_init []]"
    by (simp add: on_progress_def DownloadMonitor_init_def returns_def Let_def)
  from C10_on_progress_without_bar_is_noop [of DownloadMonitor_init 1000 0 "[(1000, 5), (1001, 0)]"]
    nobar run
  show ?thesis
    by simp
qed

section \<open>The value sent to the progress bar\<close>

text \<open>
  C2, as amended. The value sent to the bar is \<^verbatim>\<open>min(pct, 1.0)\<close>: it is bounded from above
  only. For every sequence of \<^verbatim>\<open>on_progress\<close> calls after \<^verbatim>\<open>set_ui\<close> with total \<open>total_sz\<close>,
  every value sent to the bar is \<open>(total_sz - bytes_remaining) / total_sz\<close> (or 0 when
  \<open>total_sz\<close> is not positive) cut off at 1, for the \<^verbatim>\<open>bytes_remaining\<close> of one of the
  calls; it is at most 1; and it is at least 0 when no call reports more bytes remaining
  than the total.
\<close>

theorem C2_bar_value_bounded_above:
  "\<forall>r \<in> set (run_calls (set_ui self b tx total_sz now) cs).
     \<forall>v \<in> set (bar_values (calls r)).
       (\<exists>(t, br) \<in> set cs.
          v = min (if total_sz > 0 then real_of_int (total_sz - br) / real_of_int total_sz else 0) 1) \<and>
       v \<le> 1 \<and>
       ((\<forall>(t, br) \<in> set cs. br \<le> total_sz) \<longrightarrow> 0 \<le> v)"
proof (intro ballI)
  fix r v
  assume r: "r \<in> set (run_calls (set_ui self b tx total_sz now) cs)"
    and v: "v \<in> set (bar_values (calls r))"
  from run_calls_member [OF r] obtain m t br where
    c: "(t, br) \<in> set cs" and r_eq: "r = on_progress m t br" and tot: "total_size m = total_sz"
    by (auto simp: set_ui_def)
  from v r_eq tot
  have v_eq: "v = min (if total_sz > 0 then real_of_int (total_sz - br) / real_of_int total_sz else 0) 1"
    by (simp add: on_progress_bar_values split: if_splits)
  have "0 \<le> v" if "\<forall>(t, br) \<in> set cs. br \<le> total_sz"
  proof -
    from that c have "br \<le> total_sz"
      by auto
    with v_eq show ?thesis
      by simp
  qed
  with v_eq c
  show "(\<exists>(t, br) \<in> set cs.
          v = min (if total_sz > 0 then real_of_int (total_sz - br) / real_of_int total_sz else 0) 1) \<and>
       v \<le> 1 \<and>
       ((\<forall>(t, br) \<in> set cs. br \<le> total_sz) \<longrightarrow> 0 \<le> v)"
    by auto
qed

theorem C2_witness:
  "map (\<lambda>r. bar_values (calls r))
     (run_calls (set_ui DownloadMonitor_init 1 2 100 0) [(1 / 2, 60), (11 / 20, 50), (1, 0)]) =
     [[2 / 5], [], [1]] \<and>
   (2 / 5 :: real) \<le> 1 \<and> 0 \<le> (2 / 5 :: real)"
proof -
  let ?S = "set_ui DownloadMonitor_init 1 2 100 0"
  let ?cs = "[(1 / 2, 60), (11 / 20, 50), (1, 0)] :: (real \<times> int) list"
  have ev: "map (\<lambda>r. bar_values (calls r)) (run_calls ?S ?cs) = [[2 / 5], [], [1]]"
    by (simp add: on_progress_eval)
  have first: "on_progress ?S (1 / 2) 60 \<in> set (run_calls ?S ?cs)"
    by (simp add: Let_def)
  have v: "2 / 5 \<in> set (bar_values (calls (on_progress ?S (1 / 2) 60)))"
    by (simp add: on_progress_eval)
  have small: "\<forall>(t, br) \<in> set ?cs. br \<le> 100"
    by simp
  from C2_bar_value_bounded_above [of DownloadMonitor_init 1 2 100 0 ?cs] first v small
  have "(2 / 5 :: real) \<le> 1 \<and> 0 \<le> (2 / 5 :: real)"
    by blast
  with ev show ?thesis
    by simp
qed


text \<open>
  With 100 bytes expected and 200 reported as remaining, the bar is sent \<open>-1\<close>: the claim
  that every emitted value lies in \<open>[0, 1]\<close>, also when \<^verbatim>\<open>bytes_remaining\<close> exceeds the
  total, fails.
\<close>

theorem C2_counterexample:
  "bar_values (calls (on_progress (set_ui DownloadMonitor_init 1 2 100 0) 1 200)) = [- 1] \<and>
   \<not> (0 \<le> (- 1 :: real))"
  by (simp add: on_progress_bar_values set_ui_def DownloadMonitor_init_def)

section \<open>When a progress event is emitted\<close>

text \<open>
  C3, as amended. Once a bar is attached, a call of \<^verbatim>\<open>on_progress\<close> makes a widget call if
  and only if its clock reading exceeds \<open>last_time\<close> by more than 0.1 s or
  \<^verbatim>\<open>bytes_remaining\<close> is 0, where \<open>last_time\<close> is the time of the last completed emission,
  or of \<^verbatim>\<open>set_ui\<close> when none has followed it. In a burst of calls whose clock readings lie
  within 50 ms of one another, at most one call with \<^verbatim>\<open>bytes_remaining\<close> other than 0
  emits.
\<close>

theorem C3_emission_condition:
  "(bar self \<noteq> None \<longrightarrow>
      (calls (on_progress self t br) \<noteq> [] \<longleftrightarrow> (t - last_time self > 0.1 \<or> br = 0))) \<and>
   ((\<forall>c \<in> set cs. \<forall>c' \<in> set cs. fst c' - fst c \<le> 0.05) \<longrightarrow>
      length (filter (\<lambda>(c, r). snd c \<noteq> 0 \<and> calls r \<noteq> []) (zip cs (run_calls self cs))) \<le> 1)"
  using on_progress_emits_iff [of self t br] burst_at_most_one [of cs self]
  by blast

theorem C3_witness:
  "bar (set_ui DownloadMonitor_init 1 2 100 0) \<noteq> None \<and>
   1 - last_time (set_ui DownloadMonitor_init 1 2 100 0) > 0.1 \<and>
   calls (on_progress (set_ui DownloadMonitor_init 1 2 100 0) 1 10) \<noteq> [] \<and>
   map (\<lambda>r. length (calls r))
     (run_calls (set_ui DownloadMonitor_init 1 2 100 0) [(1, 10), (51 / 50, 5), (26 / 25, 0)]) =
     [2, 0, 2] \<and>
   length (filter (\<lambda>(c, r). snd c \<noteq> 0 \<and> calls r \<noteq> [])
     (zip ([(1, 10), (51 / 50, 5), (26 / 25, 0)] :: (real \<times> int) list)
        (run_calls (set_ui DownloadMonitor_init 1 2 100 0)
           [(1, 10), (51 / 50, 5), (26 / 25, 0)]))) \<le> 1"
proof -
  let ?S = "set_ui DownloadMonitor_init 1 2 100 0"
  let ?cs = "[(1, 10), (51 / 50, 5), (26 / 25, 0)] :: (real \<times> int) list"
  have attached: "bar ?S \<noteq> None"
    by (simp add: set_ui_def)
  have late: "1 - last_time ?S > 0.1"
    by (simp add: set_ui_def)
  have window: "\<forall>c \<in> set ?cs. \<forall>c' \<in> set ?cs. fst c' - fst c \<le> 0.05"
    by simp
  have ev: "map (\<lambda>r. length (calls r)) (run_calls ?S ?cs) = [2, 0, 2]"
    by (simp add: on_progress_eval)
  from C3_emission_condition [of ?S 1 10 ?cs] attached late window
  have "calls (on_progress ?S 1 10) \<noteq> []"
    and "length (filter (\<lambda>(c, r). snd c \<noteq> 0 \<and> calls r \<noteq> []) (zip ?cs (run_calls ?S ?cs))) \<le> 1"
    by blast+
  with attached late ev show ?thesis
    by blast
qed

text \<open>
  Before \<^verbatim>\<open>set_ui\<close> the guard returns at once: on the fresh monitor a call at time 1000
  with \<^verbatim>\<open>bytes_remaining\<close> 0 meets both conditions, and nothing is emitted.
\<close>

theorem C3_counterexample:
  "(1000 - last_time DownloadMonitor_init > 0.1 \<or> (0 :: int) = 0) \<and>
   calls (on_progress DownloadMonitor_init 1000 0) = []"
  by (simp add: on_progress_def DownloadMonitor_init_def returns_def)

section \<open>A phase that expects no bytes\<close>

text \<open>
  C7. After \<^verbatim>\<open>set_ui\<close> with a total of 0, in every call of every sequence of
  \<^verbatim>\<open>on_progress\<close> calls the value sent to the bar is 0, the percent shown in the text is 0
  and no \<open>ZeroDivisionError\<close> is raised: the division is guarded by \<^verbatim>\<open>total_size > 0\<close>. In
  particular \<^verbatim>\<open>on_progress\<close> with \<^verbatim>\<open>bytes_remaining\<close> 0 returns, having sent 0 to the bar and
  0 percent, 0 bytes of 0 bytes and 0 bytes per second to the text.
\<close>

theorem C7_zero_total_reports_zero:
  "(\<forall>r \<in> set (run_calls (set_ui self b tx 0 now) cs).
      (\<forall>v \<in> set (bar_values (calls r)). v = 0) \<and>
      (\<forall>p \<in> set (text_percents (calls r)). p = 0) \<and>
      raised r \<noteq> Some ZeroDivisionError) \<and>
   on_progress (set_ui self b tx 0 now) t 0 =
     returns ((set_ui self b tx 0 now)\<lparr>last_time := t, last_bytes := 0\<rparr>)
       [Bar_progress b 0, Text_markdown tx 0 (0, ''B'') (0, ''B'') (0, ''B'')]"
proof (intro conjI ballI)
  fix r
  assume "r \<in> set (run_calls (set_ui self b tx 0 now) cs)"
  from run_calls_member [OF this] obtain m t' br where
    r: "r = on_progress m t' br" and tot: "total_size m = 0"
    by (auto simp: set_ui_def)
  show "raised r \<noteq> Some ZeroDivisionError"
    unfolding r by (rule on_progress_not_ZeroDivisionError)
  {
    fix v
    assume "v \<in> set (bar_values (calls r))"
    with r tot show "v = 0"
      by (simp add: on_progress_bar_values split: if_splits)
  }
  {
    fix p
    assume "p \<in> set (text_percents (calls r))"
    with r tot on_progress_text_percents [of p m t' br] show "p = 0"
      by (simp add: py_int_def)
  }
next
  show "on_progress (set_ui self b tx 0 now) t 0 =
     returns ((set_ui self b tx 0 now)\<lparr>last_time := t, last_bytes := 0\<rparr>)
       [Bar_progress b 0, Text_markdown tx 0 (0, ''B'') (0, ''B'') (0, ''B'')]"
    by (simp add: on_progress_def set_ui_def truediv_def Let_def render_text_def
        format_bytes_small py_int_def)
qed

theorem C7_witness:
  "on_progress (set_ui DownloadMonitor_init 1 2 0 5) 6 0 =
     returns (\<lparr>bar = Some 1, text_ui = Some 2, total_size = 0, last_time = 6, last_bytes = 0\<rparr>)
       [Bar_progress 1 0, Text_markdown 2 0 (0, ''B'') (0, ''B'') (0, ''B'')] \<and>
   map (\<lambda>r. (bar_values (calls r), text_percents (calls r), raised r))
     (run_calls (set_ui DownloadMonitor_init 1 2 0 5) [(6, 0), (7, 7)]) =
     [([0], [0], None), ([0], [0], None)]"
proof -
  let ?S = "set_ui DownloadMonitor_init 1 2 0 5"
  have ev: "map (\<lambda>r. (bar_values (calls r), text_percents (calls r), raised r))
     (run_calls ?S [(6, 0), (7, 7)]) = [([0], [0], None), ([0], [0], None)]"
    by (simp add: on_progress_eval)
  from C7_zero_total_reports_zero [of DownloadMonitor_init 1 2 5 "[(6, 0), (7, 7)]" 6]
  have "on_progress ?S 6 0 =
     returns (?S\<lparr>last_time := 6, last_bytes := 0\<rparr>)
       [Bar_progress 1 0, Text_markdown 2 0 (0, ''B'') (0, ''B'') (0, ''B'')]"
    by blast
  with ev show ?thesis
    by (simp add: set_ui_def DownloadMonitor_init_def)
qed

section \<open>Throughput and the tracking fields\<close>

text \<open>
  C8. Whenever a call of \<^verbatim>\<open>on_progress\<close> emits and returns, it has updated the bar and then
  the text, and the throughput shown in the text, a number \<open>s\<close> with the unit of the
  \<open>n\<close>-th label, stands for \<open>s * 1024 ^ n\<close> bytes per second, which is
  \<open>(last_bytes - bytes_remaining) / (current_time - last_time)\<close>, or 0 when that time
  difference is not positive. The monitor afterwards is the one before with \<open>last_time\<close>
  set to the clock reading and \<open>last_bytes\<close> to \<^verbatim>\<open>bytes_remaining\<close>; hence the throughput of
  the next emission is measured from this one: its window starts where this one ended.
  (A call that updates the bar and then raises while rendering the text reports no
  throughput and leaves the tracking fields as they were; \<open>format_bytes\<close> raises only for
  quantities above \<open>1024 ^ 5\<close>.)
\<close>

theorem C8_throughput_and_tracking:
  assumes "calls (on_progress self t br) \<noteq> []" and "raised (on_progress self t br) = None"
  shows "(\<exists>b v tx p fd ft s u n l.
            calls (on_progress self t br) = [Bar_progress b v, Text_markdown tx p fd ft (s, u)] \<and>
            map_of power_labels n = Some l \<and> u = l @ ''B'' \<and>
            s * (2 ^ 10) ^ n =
              (if t - last_time self > 0
               then real_of_int (last_bytes self - br) / (t - last_time self) else 0)) \<and>
         monitor (on_progress self t br) = self\<lparr>last_time := t, last_bytes := br\<rparr> \<and>
         (\<forall>t' br'.
            calls (on_progress (monitor (on_progress self t br)) t' br') \<noteq> [] \<and>
            raised (on_progress (monitor (on_progress self t br)) t' br') = None \<longrightarrow>
            (\<exists>b v tx p fd ft s u n l.
               calls (on_progress (monitor (on_progress self t br)) t' br') =
                 [Bar_progress b v, Text_markdown tx p fd ft (s, u)] \<and>
               map_of power_labels n = Some l \<and> u = l @ ''B'' \<and>
               s * (2 ^ 10) ^ n = (if t' - t > 0 then real_of_int (br - br') / (t' - t) else 0)))"
proof (intro conjI allI impI)
  show "\<exists>b v tx p fd ft s u n l.
            calls (on_progress self t br) = [Bar_progress b v, Text_markdown tx p fd ft (s, u)] \<and>
            map_of power_labels n = Some l \<and> u = l @ ''B'' \<and>
            s * (2 ^ 10) ^ n =
              (if t - last_time self > 0
               then real_of_int (last_bytes self - br) / (t - last_time self) else 0)"
    using assms by (rule on_progress_completed(1))
  show upd: "monitor (on_progress self t br) = self\<lparr>last_time := t, last_bytes := br\<rparr>"
    using assms by (rule on_progress_completed(2))
  fix t' br'
  assume next_call: "calls (on_progress (monitor (on_progress self t br)) t' br') \<noteq> [] \<and>
            raised (on_progress (monitor (on_progress self t br)) t' br') = None"
  from on_progress_completed(1) [of "self\<lparr>last_time := t, last_bytes := br\<rparr>" t' br']
    next_call [unfolded upd]
  show "\<exists>b v tx p fd ft s u n l.
               calls (on_progress (monitor (on_progress self t br)) t' br') =
                 [Bar_progress b v, Text_markdown tx p fd ft (s, u)] \<and>
               map_of power_labels n = Some l \<and> u = l @ ''B'' \<and>
               s * (2 ^ 10) ^ n = (if t' - t > 0 then real_of_int (br - br') / (t' - t) else 0)"
    unfolding upd by (cases "t' - t > 0") simp_all
qed

theorem C8_witness:
  "calls (on_progress (set_ui DownloadMonitor_init 1 2 100 0) (1 / 2) 60) =
     [Bar_progress 1 (2 / 5), Text_markdown 2 40 (40, ''B'') (100, ''B'') (80, ''B'')] \<and>
   raised (on_progress (set_ui DownloadMonitor_init 1 2 100 0) (1 / 2) 60) = None \<and>
   (80 :: real) = real_of_int (100 - 60) / (1 / 2 - 0) \<and>
   monitor (on_progress (set_ui DownloadMonitor_init 1 2 100 0) (1 / 2) 60) =
     \<lparr>bar = Some 1, text_ui = Some 2, total_size = 100, last_time = 1 / 2, last_bytes = 60\<rparr> \<and>
   calls (on_progress
       \<lparr>bar = Some 1, text_ui = Some 2, total_size = 100, last_time = 1 / 2, last_bytes = 60\<rparr>
       1 0) =
     [Bar_progress 1 1, Text_markdown 2 100 (100, ''B'') (100, ''B'') (120, ''B'')] \<and>
   (120 :: real) = real_of_int (60 - 0) / (1 - 1 / 2)"
proof -
  let ?S = "set_ui DownloadMonitor_init 1 2 100 0"
  have c1: "calls (on_progress ?S (1 / 2) 60) =
     [Bar_progress 1 (2 / 5), Text_markdown 2 40 (40, ''B'') (100, ''B'') (80, ''B'')]"
    by (simp add: on_progress_eval)
  have r1: "raised (on_progress ?S (1 / 2) 60) = None"
    by (simp add: on_progress_eval)
  have c2: "calls (on_progress
       \<lparr>bar = Some 1, text_ui = Some 2, total_size = 100, last_time = 1 / 2, last_bytes = 60\<rparr>
       1 0) =
     [Bar_progress 1 1, Text_markdown 2 100 (100, ''B'') (100, ''B'') (120, ''B'')]"
    by (simp add: on_progress_eval)
  from c1 have ne: "calls (on_progress ?S (1 / 2) 60) \<noteq> []"
    by simp
  from C8_throughput_and_tracking [OF ne r1]
  have "monitor (on_progress ?S (1 / 2) 60) = ?S\<lparr>last_time := 1 / 2, last_bytes := 60\<rparr>"
    by blast
  then have "monitor (on_progress ?S (1 / 2) 60) =
     \<lparr>bar = Some 1, text_ui = Some 2, total_size = 100, last_time = 1 / 2, last_bytes = 60\<rparr>"
    by (simp add: set_ui_def DownloadMonitor_init_def)
  with c1 r1 c2 show ?thesis
    by simp
qed

section \<open>Sanitized file names\<close>

text \<open>
  C5, as amended. The sanitized name is the given name with every occurrence of the nine
  characters \<^verbatim>\<open>< > : " / \ | ? *\<close> removed and every other character kept, in order; nothing
  is put in the place of a removed character. In particular \<^verbatim>\<open>Foo: Bar/Baz?\<close> becomes
  \<^verbatim>\<open>Foo BarBaz\<close>: the space after the colon stays, and no space replaces the slash.
\<close>

theorem C5_sanitize_strips_illegal_chars:
  "sanitize_filename name = filter (\<lambda>c. c \<notin> set illegal_chars) name \<and>
   set (sanitize_filename name) = set name - set illegal_chars \<and>
   sanitize_filename ''Foo: Bar/Baz?'' = ''Foo BarBaz''"
proof (intro conjI)
  show "sanitize_filename name = filter (\<lambda>c. c \<notin> set illegal_chars) name"
    by (rule sanitize_filename_filter)
  show "set (sanitize_filename name) = set name - set illegal_chars"
    by (auto simp: sanitize_filename_filter)
  show "sanitize_filename ''Foo: Bar/Baz?'' = ''Foo BarBaz''"
    by (simp add: illegal_chars_def)
qed

theorem C5_witness:
  "sanitize_filename ''a<b>:c.mp4'' = ''abc.mp4'' \<and>
   set (sanitize_filename ''a<b>:c.mp4'') = set ''a<b>:c.mp4'' - set illegal_chars"
proof -
  have "sanitize_filename ''a<b>:c.mp4'' = ''abc.mp4''"
    by (simp add: illegal_chars_def)
  with C5_sanitize_strips_illegal_chars [of "''a<b>:c.mp4''"] show ?thesis
    by blast
qed

text \<open>
  The result for \<^verbatim>\<open>Foo: Bar/Baz?\<close> is not \<^verbatim>\<open>Foo Bar Baz\<close>.
\<close>

theorem C5_counterexample:
  "sanitize_filename ''Foo: Bar/Baz?'' \<noteq> ''Foo Bar Baz''"
  by (simp add: illegal_chars_def)

section \<open>The result of the merge\<close>

text \<open>
  C9. Whatever happens to the process, \<^verbatim>\<open>merge_audio_video\<close> returns a Boolean and lets no
  exception out. It returns \<^verbatim>\<open>True\<close> exactly when the process, run with the \<^verbatim>\<open>ffmpeg\<close>
  command built from the three paths, exits with code 0, and then shows no diagnostic.
  It returns \<^verbatim>\<open>False\<close> with the diagnostic that FFmpeg was not found when the executable is
  missing, and \<^verbatim>\<open>False\<close> with the diagnostic carrying the exception when the process
  cannot be started otherwise or exits with a code other than 0.
\<close>

theorem C9_merge_returns_boolean:
  fixes sys :: "string list \<Rightarrow> proc_outcome"
  defines "cmd \<equiv> \<lambda>v a out.
     [''ffmpeg'', ''-y'', ''-i'', v, ''-i'', a, ''-c:v'', ''copy'', ''-c:a'', ''aac'', out]"
  shows
  "(\<exists>b. fst (merge_audio_video sys v a out) = Inr b) \<and>
   (fst (merge_audio_video sys v a out) = Inr True \<longleftrightarrow> sys (cmd v a out) = Exited 0) \<and>
   (sys (cmd v a out) = Exited 0 \<longrightarrow> merge_audio_video sys v a out = (Inr True, [])) \<and>
   (sys (cmd v a out) = Not_found \<longrightarrow>
      merge_audio_video sys v a out = (Inr False, [Ffmpeg_not_found])) \<and>
   (sys (cmd v a out) = Spawn_error \<longrightarrow>
      merge_audio_video sys v a out = (Inr False, [Error_merging OSError_other])) \<and>
   (\<forall>rc. rc \<noteq> 0 \<and> sys (cmd v a out) = Exited rc \<longrightarrow>
      merge_audio_video sys v a out = (Inr False, [Error_merging (CalledProcessError rc)]))"
  by (cases "sys (cmd v a out)")
    (auto simp: merge_audio_video_def subprocess_run_check_def cmd_def Let_def)

theorem C9_witness:
  "merge_audio_video (\<lambda>c. if hd c = ''ffmpeg'' then Exited 0 else Not_found)
     ''/d/temp_video_x.mp4'' ''/d/temp_audio_x.m4a'' ''/d/x.mp4'' = (Inr True, []) \<and>
   merge_audio_video (\<lambda>c. Not_found)
     ''/d/temp_video_x.mp4'' ''/d/temp_audio_x.m4a'' ''/d/x.mp4'' = (Inr False, [Ffmpeg_not_found]) \<and>
   merge_audio_video (\<lambda>c. Exited 1)
     ''/d/temp_video_x.mp4'' ''/d/temp_audio_x.m4a'' ''/d/x.mp4'' =
       (Inr False, [Error_merging (CalledProcessError 1)])"
proof -
  let ?v = "''/d/temp_video_x.mp4''" and ?a = "''/d/temp_audio_x.m4a''" and ?out = "''/d/x.mp4''"
  from C9_merge_returns_boolean [of "\<lambda>c. if hd c = ''ffmpeg'' then Exited 0 else Not_found" ?v ?a ?out]
  have 1: "merge_audio_video (\<lambda>c. if hd c = ''ffmpeg'' then Exited 0 else Not_found) ?v ?a ?out =
      (Inr True, [])"
    by simp
  from C9_merge_returns_boolean [of "\<lambda>c. Not_found" ?v ?a ?out]
  have 2: "merge_audio_video (\<lambda>c. Not_found) ?v ?a ?out = (Inr False, [Ffmpeg_not_found])"
    by simp
  from C9_merge_returns_boolean [of "\<lambda>c. Exited 1" ?v ?a ?out]
  have 3: "merge_audio_video (\<lambda>c. Exited 1) ?v ?a ?out =
      (Inr False, [Error_merging (CalledProcessError 1)])"
    by simp
  from 1 2 3 show ?thesis
    by simp
qed

section \<open>One encoding for each resolution\<close>

text \<open>
  C4. For every list of streams that the provider enumerates, the dictionary
  \<^verbatim>\<open>resolutions\<close> built by the loop has no two entries with the same resolution; each of its
  entries has a resolution that is neither \<^verbatim>\<open>None\<close> nor empty and holds the first stream of
  the enumeration with that resolution; and every resolution of the enumeration that is
  neither \<^verbatim>\<open>None\<close> nor empty has its entry.
\<close>

theorem C4_one_encoding_per_resolution:
  "distinct (map fst (resolutions_of all_streams)) \<and>
   (\<forall>(r, s) \<in> set (resolutions_of all_streams).
      r \<noteq> [] \<and> resolution s = Some r \<and>
      find (\<lambda>s'. resolution s' = Some r) all_streams = Some s) \<and>
   (\<forall>s \<in> set all_streams. \<forall>r. resolution s = Some r \<and> r \<noteq> [] \<longrightarrow>
      r \<in> fst ` set (resolutions_of all_streams))"
proof (intro conjI)
  show d: "distinct (map fst (resolutions_of all_streams))"
    by (rule resolutions_of_distinct)
  show "\<forall>(r, s) \<in> set (resolutions_of all_streams).
      r \<noteq> [] \<and> resolution s = Some r \<and>
      find (\<lambda>s'. resolution s' = Some r) all_streams = Some s"
  proof (clarify)
    fix r s
    assume "(r, s) \<in> set (resolutions_of all_streams)"
    with d have "map_of (resolutions_of all_streams) r = Some s"
      by simp
    then have ne: "r \<noteq> []" and f: "find (\<lambda>s'. resolution s' = Some r) all_streams = Some s"
      by (simp_all add: resolutions_of_map_of split: if_splits)
    from f have "resolution s = Some r"
      by (auto simp: find_Some_iff)
    with ne f show "r \<noteq> [] \<and> resolution s = Some r \<and>
      find (\<lambda>s'. resolution s' = Some r) all_streams = Some s"
      by simp
  qed
  show "\<forall>s \<in> set all_streams. \<forall>r. resolution s = Some r \<and> r \<noteq> [] \<longrightarrow>
      r \<in> fst ` set (resolutions_of all_streams)"
  proof (intro ballI allI impI)
    fix s r
    assume s: "s \<in> set all_streams" and r: "resolution s = Some r \<and> r \<noteq> []"
    then have "find (\<lambda>s'. resolution s' = Some r) all_streams \<noteq> None"
      by (auto simp: find_None_iff)
    with r have "map_of (resolutions_of all_streams) r \<noteq> None"
      by (simp add: resolutions_of_map_of)
    then show "r \<in> fst ` set (resolutions_of all_streams)"
      by (simp add: map_of_eq_None_iff)
  qed
qed

theorem C4_witness:
  "resolutions_of
     [\<lparr>resolution = Some ''1080p'', is_progressive = False, filesize = 50, default_filename = ''a.mp4''\<rparr>,
      \<lparr>resolution = Some ''1080p'', is_progressive = False, filesize = 40, default_filename = ''a.mp4''\<rparr>,
      \<lparr>resolution = None, is_progressive = False, filesize = 30, default_filename = ''a.mp4''\<rparr>,
      \<lparr>resolution = Some [], is_progressive = False, filesize = 20, default_filename = ''a.mp4''\<rparr>,
      \<lparr>resolution = Some ''360p'', is_progressive = True, filesize = 10, default_filename = ''a.mp4''\<rparr>] =
     [(''1080p'',
       \<lparr>resolution = Some ''1080p'', is_progressive = False, filesize = 50, default_filename = ''a.mp4''\<rparr>),
      (''360p'',
       \<lparr>resolution = Some ''360p'', is_progressive = True, filesize = 10, default_filename = ''a.mp4''\<rparr>)] \<and>
   distinct [''1080p'', ''360p'']"
proof -
  let ?xs = "[\<lparr>resolution = Some ''1080p'', is_progressive = False, filesize = 50, default_filename = ''a.mp4''\<rparr>,
      \<lparr>resolution = Some ''1080p'', is_progressive = False, filesize = 40, default_filename = ''a.mp4''\<rparr>,
      \<lparr>resolution = None, is_progressive = False, filesize = 30, default_filename = ''a.mp4''\<rparr>,
      \<lparr>resolution = Some [], is_progressive = False, filesize = 20, default_filename = ''a.mp4''\<rparr>,
      \<lparr>resolution = Some ''360p'', is_progressive = True, filesize = 10, default_filename = ''a.mp4''\<rparr>]"
  have ev: "resolutions_of ?xs =
     [(''1080p'',
       \<lparr>resolution = Some ''1080p'', is_progressive = False, filesize = 50, default_filename = ''a.mp4''\<rparr>),
      (''360p'',
       \<lparr>resolution = Some ''360p'', is_progressive = True, filesize = 10, default_filename = ''a.mp4''\<rparr>)]"
    by (simp add: resolutions_of_def)
  from C4_one_encoding_per_resolution [of ?xs]
  have "distinct (map fst (resolutions_of ?xs))"
    by blast
  then have "distinct [''1080p'', ''360p'']"
    unfolding ev by simp
  with ev show ?thesis
    by blast
qed

section \<open>Temporary files after a failed download\<close>

text \<open>
  C1. The two \<^verbatim>\<open>os.remove\<close> calls stand after the merge, inside the \<^verbatim>\<open>try\<close>; the handler
  of the \<^verbatim>\<open>try\<close> only shows the error. So the temporary files are removed whenever both
  transfers return (\<open>cleanup_after_merge\<close>, whether the merge succeeds or not), but not
  when a transfer raises: with the video track saved and the audio transfer failing, the
  click ends with the error shown and the file \<^verbatim>\<open>temp_video_clip.mp4\<close> still in the download
  directory.
\<close>

theorem C1_temp_video_left_when_audio_fails:
  "download_clicked
     \<lparr>video_dl = Saved, audio_dl = Failed_clean, ffmpeg = (\<lambda>cmd. Exited 0)\<rparr>
     {} ''/home/u/Downloads''
     \<lparr>resolution = Some ''1080p'', is_progressive = False, filesize = 52428800,
        default_filename = ''clip.mp4''\<rparr>
     (Some \<lparr>resolution = None, is_progressive = False, filesize = 5242880,
        default_filename = ''clip.m4a''\<rparr>) =
   ({''/home/u/Downloads/temp_video_clip.mp4''}, [Error_shown Download_error], None)"
  by (simp add: download_clicked_def try_block_def download_def Let_def)

section \<open>A video without an audio-only stream\<close>

text \<open>
  C6. With no audio-only stream, \<^verbatim>\<open>best_audio\<close> is \<^verbatim>\<open>None\<close> and \<^verbatim>\<open>audio_size\<close> is 0. The
  adaptive 1080p stream is still offered, as \<^verbatim>\<open>1080p (High Res)\<close> with the size of the video
  track alone; choosing it selects that stream; and the click then transfers the whole
  video track before \<^verbatim>\<open>best_audio.download\<close> raises \<^verbatim>\<open>AttributeError\<close>, which is shown
  as the error, the temporary video file staying behind.
\<close>

theorem C6_adaptive_offered_without_audio:
  "audio_size_of None = 0 \<and>
   res_options_loop
     (resolutions_of
        [\<lparr>resolution = Some ''1080p'', is_progressive = False, filesize = 52428800,
           default_filename = ''clip.mp4''\<rparr>])
     (audio_size_of None) [] =
     Inr [(High_Res ''1080p'' (50, ''MB''), ''1080p'')] \<and>
   selected_stream_of
     (resolutions_of
        [\<lparr>resolution = Some ''1080p'', is_progressive = False, filesize = 52428800,
           default_filename = ''clip.mp4''\<rparr>])
     [(High_Res ''1080p'' (50, ''MB''), ''1080p'')]
     (High_Res ''1080p'' (50, ''MB'')) =
     Some \<lparr>resolution = Some ''1080p'', is_progressive = False, filesize = 52428800,
        default_filename = ''clip.mp4''\<rparr> \<and>
   download_clicked
     \<lparr>video_dl = Saved, audio_dl = Saved, ffmpeg = (\<lambda>cmd. Exited 0)\<rparr>
     {} ''/home/u/Downloads''
     \<lparr>resolution = Some ''1080p'', is_progressive = False, filesize = 52428800,
        default_filename = ''clip.mp4''\<rparr>
     None =
   ({''/home/u/Downloads/temp_video_clip.mp4''}, [Error_shown AttributeError], None)"
  by (simp add: audio_size_of_def resolutions_of_def selected_stream_of_def format_bytes_50MB
      download_clicked_def try_block_def download_def Let_def)

end
